theory Spec2Isabelle
  imports Main "HOL-Library.Char_ord" "HOL-Library.List_Lexorder" "HOL-Library.Multiset"
begin

section \<open>Employee report generator: the embedding of main.py\<close>

text \<open>
  Python strings are lists of characters (\<open>string\<close>); a character stands for its code
  point, and the order on strings is the lexicographic order of the code points, which
  is how Python compares \<open>str\<close> values.
\<close>

subsection \<open>String helpers of the Python runtime\<close>

text \<open>
  \<open>str.isspace\<close> on the code points below 256: tab, line feed, vertical tab, form feed,
  carriage return, the four separators 28 to 31, space, next line (133) and no-break
  space (160).
\<close>

definition isspace :: "char \<Rightarrow> bool" where
  "isspace c = ((of_char c :: nat) \<in> set [9, 10, 11, 12, 13, 28, 29, 30, 31, 32, 133, 160])"

text \<open>\<open>s.strip()\<close>: the whitespace at both ends is removed.\<close>

definition strip :: "string \<Rightarrow> string" where
  "strip s = rev (dropWhile isspace (rev (dropWhile isspace s)))"

text \<open>
  \<open>s.split(sep)\<close> for a one-character separator: one piece more than there are
  separators, so the empty string splits into the single piece \<open>''''\<close>.
\<close>

fun split_on :: "char \<Rightarrow> string \<Rightarrow> string list" where
  "split_on sep [] = [[]]"
| "split_on sep (c # cs) =
     (if c = sep then [] # split_on sep cs
      else (case split_on sep cs of
              [] \<Rightarrow> [[c]]
            | w # ws \<Rightarrow> (c # w) # ws))"

text \<open>\<open>sep.join(xs)\<close>.\<close>

fun join :: "string \<Rightarrow> string list \<Rightarrow> string" where
  "join sep [] = []"
| "join sep [x] = x"
| "join sep (x # y # ys) = x @ sep @ join sep (y # ys)"

text \<open>\<open>s.ljust(w)\<close> and \<open>s.rjust(w)\<close>: the padding of the format fields \<open>{s:w}\<close> and \<open>{s:>w}\<close>;
  a longer string is left as it is.\<close>

definition ljust :: "nat \<Rightarrow> string \<Rightarrow> string" where
  "ljust w s = s @ replicate (w - length s) CHR '' ''"

definition rjust :: "nat \<Rightarrow> string \<Rightarrow> string" where
  "rjust w s = replicate (w - length s) CHR '' '' @ s"

subsection \<open>read_csv\<close>

text \<open>
  \<open>read_csv\<close> opens the file and reads it whole; the argument here is the text that
  \<open>f.read()\<close> returns. The lines are \<open>content\<close>, the test \<open>if not content\<close> is the first
  case, and the comprehension keeps the non-empty lines after the first.
\<close>

definition read_csv :: "string \<Rightarrow> string list \<times> string list list" where
  "read_csv text =
     (let content = split_on CHR 0x0A (strip text) in
      case content of
        [] \<Rightarrow> ([], [])
      | first # rest \<Rightarrow>
          (split_on CHR '','' first,
           map (split_on CHR '','') (filter (\<lambda>row. row \<noteq> []) rest)))"

subsection \<open>parse_csv_to_dicts\<close>

text \<open>The header loop of \<open>parse_csv_to_dicts\<close>, for one header.\<close>

definition normalize_header :: "string \<Rightarrow> string" where
  "normalize_header header =
     (if header \<in> set [''hourly_rate'', ''rate'', ''salary''] then ''hourly_rate''
      else header)"

text \<open>
  A record of the result is a Python \<open>dict\<close> from field names to values. A value is a
  string or a number. The numbers are a type parameter \<open>'n\<close>: what Python does with
  them (\<open>float(value)\<close>, the literal \<open>0\<close>, \<open>+\<close>, \<open>*\<close> and the format \<open>.0f\<close>) is passed as
  a record of operations, so that a theorem stated for every such record holds of
  Python's floats and integers alike.
\<close>

datatype 'n val = Str string | Num 'n

type_synonym 'n employee = "string \<rightharpoonup> 'n val"

record 'n num_ops =
  num_of_str :: "string \<Rightarrow> 'n option"  \<comment> \<open>\<open>float(value)\<close>; \<open>None\<close> is its \<open>ValueError\<close>\<close>
  num_zero :: "'n"                       \<comment> \<open>the literal \<open>0\<close>\<close>
  num_add :: "'n \<Rightarrow> 'n \<Rightarrow> 'n"            \<comment> \<open>\<open>a + b\<close>\<close>
  num_mul :: "'n \<Rightarrow> 'n \<Rightarrow> 'n"            \<comment> \<open>\<open>a * b\<close>\<close>
  num_fmt0 :: "'n \<Rightarrow> string"             \<comment> \<open>\<open>format(a, '.0f')\<close>\<close>

text \<open>
  The errors of the model. \<open>IndexError\<close> is a read of \<open>normalized_headers[i]\<close> out of
  range; \<open>ValueError\<close> carries its message; \<open>Numeric_Field_Error\<close> is the \<open>TypeError\<close> or
  \<open>ValueError\<close> that \<open>hours * rate\<close> or the format \<open>.0f\<close> raise on a string;
  \<open>Outside_Model\<close> marks a record whose \<open>name\<close> or \<open>department\<close> is a number: Python
  renders it through \<open>str\<close>, the model does not.
\<close>

datatype error = IndexError | ValueError string | Numeric_Field_Error | Outside_Model

text \<open>
  The value stored for one cell: the \<open>try\<close>/\<open>except ValueError\<close> around \<open>float(value)\<close>
  for the two numeric columns, the string itself for any other column.
\<close>

definition field_value :: "'n num_ops \<Rightarrow> string \<Rightarrow> string \<Rightarrow> 'n val" where
  "field_value ops key v =
     (if key \<in> set [''hours_worked'', ''hourly_rate'']
      then (case num_of_str ops v of Some x \<Rightarrow> Num x | None \<Rightarrow> Num (num_zero ops))
      else Str v)"

text \<open>
  The loop \<open>for i, value in enumerate(row)\<close>: \<open>i\<close> is the index of the next value,
  \<open>employee\<close> the dictionary built so far.
\<close>

fun fill_employee ::
  "'n num_ops \<Rightarrow> string list \<Rightarrow> nat \<Rightarrow> string list \<Rightarrow> 'n employee \<Rightarrow> error + 'n employee"
where
  "fill_employee ops normalized_headers i [] employee = Inr employee"
| "fill_employee ops normalized_headers i (v # vs) employee =
     (if i < length normalized_headers
      then fill_employee ops normalized_headers (Suc i) vs
             (employee(normalized_headers ! i \<mapsto> field_value ops (normalized_headers ! i) v))
      else Inl IndexError)"

text \<open>The loop \<open>for row in data\<close>: a row of another width is skipped.\<close>

fun rows_to_dicts ::
  "'n num_ops \<Rightarrow> string list \<Rightarrow> string list \<Rightarrow> string list list \<Rightarrow> error + 'n employee list"
where
  "rows_to_dicts ops headers normalized_headers [] = Inr []"
| "rows_to_dicts ops headers normalized_headers (row # data) =
     (if length row \<noteq> length headers
      then rows_to_dicts ops headers normalized_headers data
      else (case fill_employee ops normalized_headers 0 row Map.empty of
              Inl e \<Rightarrow> Inl e
            | Inr employee \<Rightarrow>
                (case rows_to_dicts ops headers normalized_headers data of
                   Inl e \<Rightarrow> Inl e
                 | Inr result \<Rightarrow> Inr (employee # result))))"

text \<open>\<open>parse_csv_to_dicts\<close> after its call of \<open>read_csv\<close>, and the whole of it.\<close>

definition table_to_dicts ::
  "'n num_ops \<Rightarrow> string list \<times> string list list \<Rightarrow> error + 'n employee list"
where
  "table_to_dicts ops table =
     (case table of (headers, data) \<Rightarrow>
        if headers = [] \<or> data = [] then Inr []
        else rows_to_dicts ops headers (map normalize_header headers) data)"

definition parse_csv_to_dicts :: "'n num_ops \<Rightarrow> string \<Rightarrow> error + 'n employee list" where
  "parse_csv_to_dicts ops text = table_to_dicts ops (read_csv text)"

subsection \<open>generate_payout_report\<close>

text \<open>
  \<open>employee.get(key, dflt)\<close> for a field that holds a string, and for one that holds a
  number. The report is only rendered for records whose \<open>name\<close> and \<open>department\<close> are
  strings and whose \<open>hours_worked\<close> and \<open>hourly_rate\<close> are numbers, when present (see
  \<open>generate_payout_report\<close>), so the other case of each lookup is never read.
\<close>

definition get_str :: "'n employee \<Rightarrow> string \<Rightarrow> string \<Rightarrow> string" where
  "get_str employee key dflt =
     (case employee key of None \<Rightarrow> dflt | Some (Str s) \<Rightarrow> s | Some (Num n) \<Rightarrow> dflt)"

definition get_num :: "'n employee \<Rightarrow> string \<Rightarrow> 'n \<Rightarrow> 'n" where
  "get_num employee key dflt =
     (case employee key of None \<Rightarrow> dflt | Some (Num n) \<Rightarrow> n | Some (Str s) \<Rightarrow> dflt)"

definition is_str :: "'n val option \<Rightarrow> bool" where
  "is_str x = (case x of Some (Num n) \<Rightarrow> False | _ \<Rightarrow> True)"

definition is_num :: "'n val option \<Rightarrow> bool" where
  "is_num x = (case x of Some (Str s) \<Rightarrow> False | _ \<Rightarrow> True)"

definition text_fields_ok :: "'n employee \<Rightarrow> bool" where
  "text_fields_ok employee = (is_str (employee ''name'') \<and> is_str (employee ''department''))"

definition numeric_fields_ok :: "'n employee \<Rightarrow> bool" where
  "numeric_fields_ok employee =
     (is_num (employee ''hours_worked'') \<and> is_num (employee ''hourly_rate''))"

definition department :: "'n employee \<Rightarrow> string" where
  "department employee = get_str employee ''department'' ''Unknown''"

definition hours_of :: "'n num_ops \<Rightarrow> 'n employee \<Rightarrow> 'n" where
  "hours_of ops employee = get_num employee ''hours_worked'' (num_zero ops)"

definition rate_of :: "'n num_ops \<Rightarrow> 'n employee \<Rightarrow> 'n" where
  "rate_of ops employee = get_num employee ''hourly_rate'' (num_zero ops)"

definition payout_of :: "'n num_ops \<Rightarrow> 'n employee \<Rightarrow> 'n" where
  "payout_of ops employee = num_mul ops (hours_of ops employee) (rate_of ops employee)"

text \<open>
  The dictionary \<open>departments\<close> keeps its keys in the order of their first insertion; it is
  an association list in that order. One round of the grouping loop:
\<close>

definition add_employee ::
  "'n employee \<Rightarrow> (string \<times> 'n employee list) list \<Rightarrow> (string \<times> 'n employee list) list"
where
  "add_employee employee departments =
     (let dept = department employee;
          departments' = (if dept \<notin> set (map fst departments)
                          then departments @ [(dept, [])] else departments)
      in map (\<lambda>(d, employees). if d = dept then (d, employees @ [employee])
                                else (d, employees)) departments')"

definition group_by_department ::
  "'n employee list \<Rightarrow> (string \<times> 'n employee list) list"
where
  "group_by_department employees_data = fold add_employee employees_data []"

text \<open>
  \<open>sorted(departments.items())\<close> compares the pairs; the keys of a dictionary differ, so
  the keys alone decide, and sorting by the key gives the same list.
\<close>

definition sorted_departments ::
  "'n employee list \<Rightarrow> (string \<times> 'n employee list) list"
where
  "sorted_departments employees_data = sort_key fst (group_by_department employees_data)"

text \<open>The lines of the report.\<close>

definition header_line :: string where
  "header_line =
     ljust 30 ''name'' @ '' '' @ rjust 8 ''hours'' @ '' '' @ rjust 8 ''rate'' @ '' ''
       @ rjust 10 ''payout''"

definition employee_line :: "'n num_ops \<Rightarrow> 'n employee \<Rightarrow> string" where
  "employee_line ops employee =
     (let name = get_str employee ''name'' ''Unknown'';
          hours = hours_of ops employee;
          rate = rate_of ops employee;
          payout = num_mul ops hours rate
      in ''-------------- '' @ ljust 20 name @ '' '' @ rjust 8 (num_fmt0 ops hours) @ '' ''
           @ rjust 8 (num_fmt0 ops rate) @ '' $'' @ rjust 9 (num_fmt0 ops payout))"

definition subtotal_line :: "'n num_ops \<Rightarrow> 'n \<Rightarrow> 'n \<Rightarrow> string" where
  "subtotal_line ops dept_total_hours dept_total_payout =
     ljust 45 '' '' @ '' '' @ rjust 8 (num_fmt0 ops dept_total_hours) @ '' ''
       @ ljust 8 '' '' @ '' $'' @ rjust 8 (num_fmt0 ops dept_total_payout)"

definition total_hours_line :: "'n num_ops \<Rightarrow> 'n \<Rightarrow> string" where
  "total_hours_line ops grand_total_hours =
     [CHR 0x0A] @ ''Total hours: '' @ num_fmt0 ops grand_total_hours"

definition total_payout_line :: "'n num_ops \<Rightarrow> 'n \<Rightarrow> string" where
  "total_payout_line ops grand_total_payout =
     ''Total payout: $'' @ num_fmt0 ops grand_total_payout"

text \<open>
  The two nested loops thread the list of lines and the running totals. The state of the
  inner loop is \<open>(report_lines, dept_total_hours, dept_total_payout)\<close>, that of the outer
  loop \<open>(report_lines, grand_total_hours, grand_total_payout)\<close>.
\<close>

definition employee_step ::
  "'n num_ops \<Rightarrow> 'n employee \<Rightarrow> string list \<times> 'n \<times> 'n \<Rightarrow> string list \<times> 'n \<times> 'n"
where
  "employee_step ops employee st =
     (case st of (report_lines, dept_total_hours, dept_total_payout) \<Rightarrow>
        (report_lines @ [employee_line ops employee],
         num_add ops dept_total_hours (hours_of ops employee),
         num_add ops dept_total_payout (payout_of ops employee)))"

definition department_step ::
  "'n num_ops \<Rightarrow> string \<times> 'n employee list \<Rightarrow> string list \<times> 'n \<times> 'n
     \<Rightarrow> string list \<times> 'n \<times> 'n"
where
  "department_step ops item st =
     (case item of (dept, employees) \<Rightarrow>
      case st of (report_lines, grand_total_hours, grand_total_payout) \<Rightarrow>
      case fold (employee_step ops) employees
             (report_lines @ [dept], num_zero ops, num_zero ops) of
        (report_lines', dept_total_hours, dept_total_payout) \<Rightarrow>
          (report_lines' @ [subtotal_line ops dept_total_hours dept_total_payout],
           num_add ops grand_total_hours dept_total_hours,
           num_add ops grand_total_payout dept_total_payout))"

definition payout_loop :: "'n num_ops \<Rightarrow> 'n employee list \<Rightarrow> string list \<times> 'n \<times> 'n" where
  "payout_loop ops employees_data =
     fold (department_step ops) (sorted_departments employees_data)
       ([header_line], num_zero ops, num_zero ops)"

text \<open>
  The report. Python's dictionaries are untyped; the two tests after the first one say
  which records the model renders, and what it answers for the others.
\<close>

definition generate_payout_report :: "'n num_ops \<Rightarrow> 'n employee list \<Rightarrow> error + string" where
  "generate_payout_report ops employees_data =
     (if employees_data = [] then Inr ''No data available for report.''
      else if \<not> list_all text_fields_ok employees_data then Inl Outside_Model
      else if \<not> list_all numeric_fields_ok employees_data then Inl Numeric_Field_Error
      else (case payout_loop ops employees_data of
              (report_lines, grand_total_hours, grand_total_payout) \<Rightarrow>
                Inr (join [CHR 0x0A]
                       (report_lines @ [total_hours_line ops grand_total_hours,
                                        total_payout_line ops grand_total_payout]))))"

subsection \<open>get_report_generator and the call in main\<close>

definition report_generators ::
  "(string \<times> ('n num_ops \<Rightarrow> 'n employee list \<Rightarrow> error + string)) list"
where
  "report_generators = [(''payout'', generate_payout_report)]"

definition get_report_generator ::
  "string \<Rightarrow> error + ('n num_ops \<Rightarrow> 'n employee list \<Rightarrow> error + string)"
where
  "get_report_generator report_type =
     (case map_of report_generators report_type of
        None \<Rightarrow> Inl (ValueError (''Unknown report type: '' @ report_type))
      | Some generator \<Rightarrow> Inr generator)"

text \<open>The two statements of the \<open>try\<close> block of \<open>main\<close> that produce the report.\<close>

definition main_report :: "'n num_ops \<Rightarrow> string \<Rightarrow> 'n employee list \<Rightarrow> error + string" where
  "main_report ops report_type all_employees =
     (case get_report_generator report_type of
        Inl e \<Rightarrow> Inl e
      | Inr report_generator \<Rightarrow> report_generator ops all_employees)"

subsection \<open>Numbers with integer values\<close>

text \<open>
  One instance of the operations, for the closed examples: numbers whose value is an
  integer. Python computes \<open>+\<close> and \<open>*\<close> on them exactly, on \<open>int\<close> always and on
  \<open>float\<close> below \<open>2 ^ 53\<close>, and the format \<open>.0f\<close> prints the decimal digits.
  \<open>digits_to_num\<close> is \<open>float(value)\<close> on a string of decimal digits; it answers \<open>None\<close> on
  every other string, which is what \<open>float\<close> does on a word such as \<open>abc\<close>. The other
  spellings \<open>float\<close> accepts (a sign, a fraction, an exponent, surrounding whitespace,
  underscores, \<open>inf\<close>, \<open>nan\<close>) do not occur in the examples.
\<close>

definition digit_char :: "nat \<Rightarrow> char" where
  "digit_char d = ''0123456789'' ! d"

fun str_of_nat :: "nat \<Rightarrow> string" where
  "str_of_nat n =
     (if n < 10 then [digit_char n]
      else str_of_nat (n div 10) @ [digit_char (n mod 10)])"

declare str_of_nat.simps [simp del]

definition str_of_int :: "int \<Rightarrow> string" where
  "str_of_int i = (if i < 0 then ''-'' @ str_of_nat (nat (- i)) else str_of_nat (nat i))"

definition is_digit :: "char \<Rightarrow> bool" where
  "is_digit c = (48 \<le> (of_char c :: nat) \<and> (of_char c :: nat) \<le> 57)"

definition digits_to_num :: "string \<Rightarrow> int option" where
  "digits_to_num s =
     (if s \<noteq> [] \<and> list_all is_digit s
      then Some (int (foldl (\<lambda>a c. 10 * a + (of_char c - 48)) 0 s))
      else None)"

definition integer_ops :: "int num_ops" where
  "integer_ops =
     \<lparr>num_of_str = digits_to_num, num_zero = 0, num_add = (+), num_mul = (*),
      num_fmt0 = str_of_int\<rparr>"

subsection \<open>The totals and the sections of the report, in closed form\<close>

text \<open>
  What the inner loop of \<open>generate_payout_report\<close> accumulates for one department, and
  the lines it appends for it: the name, one line for each employee, the subtotal line.
  \<open>department_step_totals\<close> below shows that \<open>department_step\<close> computes exactly these.
\<close>

definition dept_total_hours :: "'n num_ops \<Rightarrow> 'n employee list \<Rightarrow> 'n" where
  "dept_total_hours ops employees =
     fold (\<lambda>employee total. num_add ops total (hours_of ops employee)) employees (num_zero ops)"

definition dept_total_payout :: "'n num_ops \<Rightarrow> 'n employee list \<Rightarrow> 'n" where
  "dept_total_payout ops employees =
     fold (\<lambda>employee total. num_add ops total (payout_of ops employee)) employees (num_zero ops)"

definition section_lines :: "'n num_ops \<Rightarrow> string \<times> 'n employee list \<Rightarrow> string list" where
  "section_lines ops item =
     (case item of (dept, employees) \<Rightarrow>
        dept # map (employee_line ops) employees
          @ [subtotal_line ops (dept_total_hours ops employees)
               (dept_total_payout ops employees)])"

text \<open>
  The running sum \<open>total += x\<close>, started at \<open>0\<close>, over a list of numbers, and the two
  grand totals: the state of the outer loop when it ends.
\<close>

definition num_sum :: "'n num_ops \<Rightarrow> 'n list \<Rightarrow> 'n" where
  "num_sum ops xs = fold (\<lambda>x total. num_add ops total x) xs (num_zero ops)"

definition grand_total_hours :: "'n num_ops \<Rightarrow> 'n employee list \<Rightarrow> 'n" where
  "grand_total_hours ops employees_data = fst (snd (payout_loop ops employees_data))"

definition grand_total_payout :: "'n num_ops \<Rightarrow> 'n employee list \<Rightarrow> 'n" where
  "grand_total_payout ops employees_data = snd (snd (payout_loop ops employees_data))"


subsection \<open>Floats with integer values\<close>







subsection \<open>The scenario of the test suite\<close>

text \<open>\<open>sub in s\<close> on strings.\<close>

fun str_contains :: "string \<Rightarrow> string \<Rightarrow> bool" where
  "str_contains sub [] = (sub = [])"
| "str_contains sub (c # cs) = (take (length sub) (c # cs) = sub \<or> str_contains sub cs)"

text \<open>The three records of \<open>test_generate_payout_report\<close>.\<close>

definition scenario_records :: "int employee list" where
  "scenario_records =
     [[''name'' \<mapsto> Str ''John Doe'', ''department'' \<mapsto> Str ''IT'',
       ''hours_worked'' \<mapsto> Num 160, ''hourly_rate'' \<mapsto> Num 50],
      [''name'' \<mapsto> Str ''Jane Smith'', ''department'' \<mapsto> Str ''IT'',
       ''hours_worked'' \<mapsto> Num 150, ''hourly_rate'' \<mapsto> Num 60],
      [''name'' \<mapsto> Str ''Bob Brown'', ''department'' \<mapsto> Str ''HR'',
       ''hours_worked'' \<mapsto> Num 170, ''hourly_rate'' \<mapsto> Num 40]]"

text \<open>The lines this model computes for them, the last two being the grand totals.\<close>

definition scenario_lines :: "string list" where
  "scenario_lines =
     [''name                              hours     rate     payout'',
      ''HR'',
      ''-------------- Bob Brown                 170       40 $     6800'',
      ''                                                   170          $    6800'',
      ''IT'',
      ''-------------- John Doe                  160       50 $     8000'',
      ''-------------- Jane Smith                150       60 $     9000'',
      ''                                                   310          $   17000'',
      [CHR 0x0A] @ ''Total hours: 480'',
      ''Total payout: $23800'']"

subsection \<open>The dictionary of one row, in closed form\<close>

text \<open>
  One assignment \<open>employee[normalized_headers[i]] = ...\<close> of the inner loop, and the
  dictionary the loop builds for a row, as a fold over the pairs of a normalized header
  and the value below it. \<open>fill_employee_row_dict\<close> below shows that \<open>fill_employee\<close>
  returns it for every row as wide as the header row.
\<close>

definition store_field :: "'n num_ops \<Rightarrow> string \<times> string \<Rightarrow> 'n employee \<Rightarrow> 'n employee" where
  "store_field ops cell employee =
     (case cell of (key, v) \<Rightarrow> employee(key \<mapsto> field_value ops key v))"

definition row_dict :: "'n num_ops \<Rightarrow> string list \<Rightarrow> string list \<Rightarrow> 'n employee" where
  "row_dict ops normalized_headers row =
     fold (store_field ops) (zip normalized_headers row) Map.empty"

text \<open>A file with three columns, two of which normalize to \<open>hourly_rate\<close>, a short
  row, and a value that is no number.\<close>

definition sample_csv :: string where
  "sample_csv = ''name,rate,salary'' @ [CHR 0x0A] @ ''ann,abc,7'' @ [CHR 0x0A] @ ''bob''
     @ [CHR 0x0A] @ ''cy,12,x''"

section \<open>Properties of the parser\<close>

lemma split_on_not_Nil: "split_on sep s \<noteq> []"
  by (induction s) (auto split: list.splits)

text \<open>
  C1. The claim: \<open>read_csv\<close> on a text that strips to nothing, such as the empty file,
  returns the empty table, no headers and no rows. The code does not: the empty string
  splits into one empty line, the test \<open>if not content\<close> never holds, and the header
  list is the one-element list holding the empty string. There is no text for which
  \<open>read_csv\<close> returns an empty header list.
\<close>

theorem read_csv_empty_text:
  "read_csv '''' = ([''''], []) \<and> read_csv [CHR '' '', CHR 0x0A] = ([''''], [])
   \<and> (\<forall>text. fst (read_csv text) \<noteq> [])"
  by (auto simp: read_csv_def strip_def isspace_def split_on_not_Nil split: list.splits)

text \<open>
  C2. \<open>normalize_header\<close> is idempotent; its result is \<open>hourly_rate\<close> exactly for the three
  aliases; every other header is returned unchanged.
\<close>

theorem normalize_header_idempotent:
  "normalize_header (normalize_header h) = normalize_header h
   \<and> (normalize_header h = ''hourly_rate'' \<longleftrightarrow> h \<in> {''hourly_rate'', ''rate'', ''salary''})
   \<and> (h \<notin> {''hourly_rate'', ''rate'', ''salary''} \<longrightarrow> normalize_header h = h)"
  by (simp add: normalize_header_def)

theorem normalize_header_idempotent_witness:
  "normalize_header (normalize_header ''name'') = normalize_header ''name''
   \<and> normalize_header ''name'' \<noteq> ''hourly_rate''
   \<and> ''name'' \<notin> {''hourly_rate'', ''rate'', ''salary''} \<and> normalize_header ''name'' = ''name''"
  using normalize_header_idempotent [of "''name''"]
  by simp

subsection \<open>The loops of \<open>parse_csv_to_dicts\<close>\<close>

lemma store_field_pair [simp]:
  "store_field ops (key, v) employee = employee(key \<mapsto> field_value ops key v)"
  by (simp add: store_field_def)

lemma fill_employee_fold:
  "i + length vs \<le> length nh \<Longrightarrow>
   fill_employee ops nh i vs e = Inr (fold (store_field ops) (zip (drop i nh) vs) e)"
proof (induction vs arbitrary: i e)
  case Nil
  then show ?case by simp
next
  case (Cons v vs)
  then have i: "i < length nh" and rest: "Suc i + length vs \<le> length nh" by simp_all
  have split: "drop i nh = nh ! i # drop (Suc i) nh"
    using i by (simp add: Cons_nth_drop_Suc)
  show ?case
    using i Cons.IH [OF rest] by (simp add: split fun_upd_def)
qed

lemma fill_employee_row_dict:
  "length row = length nh \<Longrightarrow> fill_employee ops nh 0 row Map.empty = Inr (row_dict ops nh row)"
  using fill_employee_fold [of 0 row nh ops Map.empty] by (simp add: row_dict_def)

lemma fold_store_other:
  "key \<notin> set ks \<Longrightarrow> fold (store_field ops) (zip ks vs) e key = e key"
proof (induction ks arbitrary: vs e)
  case Nil
  then show ?case by simp
next
  case (Cons k ks)
  then show ?case by (cases vs) simp_all
qed

lemma fold_store_dom:
  "length ks = length vs \<Longrightarrow> dom (fold (store_field ops) (zip ks vs) e) = dom e \<union> set ks"
  by (induction ks vs arbitrary: e rule: list_induct2) auto

lemma fold_store_last:
  "length ks = length vs \<Longrightarrow> i < length ks \<Longrightarrow>
   (\<And>j. i < j \<Longrightarrow> j < length ks \<Longrightarrow> ks ! j \<noteq> ks ! i) \<Longrightarrow>
   fold (store_field ops) (zip ks vs) e (ks ! i) = Some (field_value ops (ks ! i) (vs ! i))"
proof (induction ks vs arbitrary: i e rule: list_induct2)
  case Nil
  then show ?case by simp
next
  case (Cons k ks v vs)
  show ?case
  proof (cases i)
    case 0
    have "k \<notin> set ks"
    proof
      assume "k \<in> set ks"
      then obtain j where "j < length ks" "ks ! j = k" by (auto simp: in_set_conv_nth)
      with Cons.prems(2) [of "Suc j"] 0 show False by simp
    qed
    then show ?thesis using 0 by (simp add: fold_store_other)
  next
    case (Suc i')
    have "fold (store_field ops) (zip ks vs) (store_field ops (k, v) e) (ks ! i')
            = Some (field_value ops (ks ! i') (vs ! i'))"
    proof (rule Cons.IH)
      show "i' < length ks" using Cons.prems(1) Suc by simp
      fix j assume "i' < j" "j < length ks"
      with Cons.prems(2) [of "Suc j"] Suc show "ks ! j \<noteq> ks ! i'" by simp
    qed
    then show ?thesis using Suc by simp
  qed
qed

lemma last_occurrence:
  "key \<in> set ks \<Longrightarrow> \<exists>l<length ks. ks ! l = key \<and> (\<forall>j. l < j \<and> j < length ks \<longrightarrow> ks ! j \<noteq> key)"
proof (induction ks)
  case Nil
  then show ?case by simp
next
  case (Cons k ks)
  show ?case
  proof (cases "key \<in> set ks")
    case True
    with Cons.IH obtain l where l: "l < length ks" "ks ! l = key"
      "\<forall>j. l < j \<and> j < length ks \<longrightarrow> ks ! j \<noteq> key" by blast
    have "\<forall>j. Suc l < j \<and> j < length (k # ks) \<longrightarrow> (k # ks) ! j \<noteq> key"
    proof (intro allI impI)
      fix j assume j: "Suc l < j \<and> j < length (k # ks)"
      then obtain j' where "j = Suc j'" by (cases j) auto
      with j l(3) show "(k # ks) ! j \<noteq> key" by simp
    qed
    with l(1,2) show ?thesis by (intro exI [of _ "Suc l"]) simp
  next
    case False
    with Cons.prems have "k = key" by simp
    moreover have "\<forall>j. 0 < j \<and> j < length (k # ks) \<longrightarrow> (k # ks) ! j \<noteq> key"
    proof (intro allI impI)
      fix j assume j: "0 < j \<and> j < length (k # ks)"
      then obtain j' where "j = Suc j'" by (cases j) auto
      with j False show "(k # ks) ! j \<noteq> key" by auto
    qed
    ultimately show ?thesis by (intro exI [of _ 0]) simp
  qed
qed

lemma row_dict_dom: "length row = length nh \<Longrightarrow> dom (row_dict ops nh row) = set nh"
  by (simp add: row_dict_def fold_store_dom)

lemma row_dict_last:
  "length row = length nh \<Longrightarrow> i < length nh \<Longrightarrow>
   (\<And>j. i < j \<Longrightarrow> j < length nh \<Longrightarrow> nh ! j \<noteq> nh ! i) \<Longrightarrow>
   row_dict ops nh row (nh ! i) = Some (field_value ops (nh ! i) (row ! i))"
  unfolding row_dict_def by (rule fold_store_last) simp_all

lemma last_occurrence_elim:
  assumes "key \<in> set ks"
  obtains l where "l < length ks" "ks ! l = key"
    "\<And>j. l < j \<Longrightarrow> j < length ks \<Longrightarrow> ks ! j \<noteq> ks ! l"
proof -
  from last_occurrence [OF assms] obtain l where
    "l < length ks" "ks ! l = key" "\<forall>j. l < j \<and> j < length ks \<longrightarrow> ks ! j \<noteq> key"
    by (elim exE conjE)
  then show thesis by (intro that [of l]) simp_all
qed

lemma row_dict_overwritten:
  assumes len: "length row = length nh" and ij: "i < j" "j < length nh" "nh ! j = nh ! i"
  shows "row_dict ops nh (row[i := x]) = row_dict ops nh row"
proof (rule ext)
  fix key
  show "row_dict ops nh (row[i := x]) key = row_dict ops nh row key"
  proof (cases "key \<in> set nh")
    case False
    then show ?thesis by (simp add: row_dict_def fold_store_other)
  next
    case True
    then show ?thesis
    proof (rule last_occurrence_elim)
    fix l
    assume l: "l < length nh" "nh ! l = key"
      and later: "\<And>j'. l < j' \<Longrightarrow> j' < length nh \<Longrightarrow> nh ! j' \<noteq> nh ! l"
    have "l \<noteq> i"
    proof
      assume "l = i"
      with later [of j] ij show False by simp
    qed
    then have same: "row[i := x] ! l = row ! l" by simp
    have len': "length (row[i := x]) = length nh" using len by simp
    have a: "row_dict ops nh (row[i := x]) (nh ! l)
               = Some (field_value ops (nh ! l) (row[i := x] ! l))"
      using len' l(1) later by (rule row_dict_last)
    have b: "row_dict ops nh row (nh ! l) = Some (field_value ops (nh ! l) (row ! l))"
      using len l(1) later by (rule row_dict_last)
    from a b same have "row_dict ops nh (row[i := x]) (nh ! l) = row_dict ops nh row (nh ! l)"
      by (simp only:)
    then show ?thesis by (simp only: l(2))
    qed
  qed
qed

lemma rows_to_dicts_map:
  "length nh = length headers \<Longrightarrow>
   rows_to_dicts ops headers nh data
     = Inr (map (row_dict ops nh) (filter (\<lambda>row. length row = length headers) data))"
  by (induction data) (simp_all add: fill_employee_row_dict)

lemma read_csv_headers: "fst (read_csv content) \<noteq> []"
  by (auto simp: read_csv_def split_on_not_Nil split: list.splits)

lemma parse_csv_to_dicts_map:
  assumes "read_csv content = (headers, data)"
  shows "parse_csv_to_dicts ops content
           = Inr (map (row_dict ops (map normalize_header headers))
                    (filter (\<lambda>row. length row = length headers) data))"
proof -
  have "headers \<noteq> []" using read_csv_headers [of content] assms by simp
  then show ?thesis
    using assms by (simp add: parse_csv_to_dicts_def table_to_dicts_def rows_to_dicts_map)
qed


lemma read_csv_sample:
  "read_csv sample_csv
     = ([''name'', ''rate'', ''salary''], [[''ann'', ''abc'', ''7''], [''bob''], [''cy'', ''12'', ''x'']])"
  by (simp add: sample_csv_def read_csv_def strip_def isspace_def)

lemma digits_sample:
  "digits_to_num ''abc'' = None" "digits_to_num ''7'' = Some 7" "digits_to_num ''x'' = None"
  "digits_to_num ''12'' = Some 12"
  by (simp_all add: digits_to_num_def is_digit_def)

lemma zip_take_right: "zip xs (take n ys) = zip (take n xs) (take n ys)"
proof (induction xs arbitrary: n ys)
  case Nil
  then show ?case by simp
next
  case (Cons x xs)
  then show ?case by (cases n; cases ys) simp_all
qed

text \<open>
  C3. \<open>parse_csv_to_dicts\<close> never fails; its result holds one dictionary for every row
  that is as wide as the header row, in the order of the rows, and none for any other
  row. The dictionary of such a row is the one \<open>fill_employee\<close> builds: its keys are the
  normalized headers, and the key of column \<open>i\<close> holds the value of the row at \<open>i\<close> (as
  \<open>field_value\<close> stores it) when no later column has the same normalized name.
\<close>

theorem parse_csv_to_dicts_row_width:
  assumes "read_csv content = (headers, data)"
  shows "parse_csv_to_dicts ops content
           = Inr (map (row_dict ops (map normalize_header headers))
                    (filter (\<lambda>row. length row = length headers) data))
         \<and> (\<forall>row. length row = length headers \<longrightarrow>
               fill_employee ops (map normalize_header headers) 0 row Map.empty
                 = Inr (row_dict ops (map normalize_header headers) row)
               \<and> dom (row_dict ops (map normalize_header headers) row)
                   = set (map normalize_header headers)
               \<and> (\<forall>i<length headers.
                     (\<forall>j. i < j \<and> j < length headers \<longrightarrow>
                          normalize_header (headers ! j) \<noteq> normalize_header (headers ! i)) \<longrightarrow>
                     row_dict ops (map normalize_header headers) row (normalize_header (headers ! i))
                       = Some (field_value ops (normalize_header (headers ! i)) (row ! i))))"
proof (intro conjI allI impI)
  show "parse_csv_to_dicts ops content
           = Inr (map (row_dict ops (map normalize_header headers))
                    (filter (\<lambda>row. length row = length headers) data))"
    using assms by (rule parse_csv_to_dicts_map)
next
  fix row :: "string list"
  assume "length row = length headers"
  then show "fill_employee ops (map normalize_header headers) 0 row Map.empty
                 = Inr (row_dict ops (map normalize_header headers) row)"
    by (simp add: fill_employee_row_dict)
next
  fix row :: "string list"
  assume "length row = length headers"
  then show "dom (row_dict ops (map normalize_header headers) row)
                   = set (map normalize_header headers)"
    by (simp add: row_dict_dom)
next
  fix row :: "string list" and i
  assume len: "length row = length headers" and i: "i < length headers"
    and last: "\<forall>j. i < j \<and> j < length headers \<longrightarrow>
                 normalize_header (headers ! j) \<noteq> normalize_header (headers ! i)"
  have "row_dict ops (map normalize_header headers) row (map normalize_header headers ! i)
          = Some (field_value ops (map normalize_header headers ! i) (row ! i))"
  proof (rule row_dict_last)
    fix j assume "i < j" "j < length (map normalize_header headers)"
    with last i show "map normalize_header headers ! j \<noteq> map normalize_header headers ! i"
      by simp
  qed (use len i in simp_all)
  then show "row_dict ops (map normalize_header headers) row (normalize_header (headers ! i))
                       = Some (field_value ops (normalize_header (headers ! i)) (row ! i))"
    using i by simp
qed


theorem parse_csv_to_dicts_row_width_witness:
  "read_csv sample_csv
     = ([''name'', ''rate'', ''salary''], [[''ann'', ''abc'', ''7''], [''bob''], [''cy'', ''12'', ''x'']])
   \<and> parse_csv_to_dicts integer_ops sample_csv
       = Inr [row_dict integer_ops [''name'', ''hourly_rate'', ''hourly_rate''] [''ann'', ''abc'', ''7''],
              row_dict integer_ops [''name'', ''hourly_rate'', ''hourly_rate''] [''cy'', ''12'', ''x'']]
   \<and> dom (row_dict integer_ops [''name'', ''hourly_rate'', ''hourly_rate''] [''ann'', ''abc'', ''7''])
       = {''name'', ''hourly_rate''}
   \<and> row_dict integer_ops [''name'', ''hourly_rate'', ''hourly_rate''] [''ann'', ''abc'', ''7'']
         ''name'' = Some (Str ''ann'')
   \<and> row_dict integer_ops [''name'', ''hourly_rate'', ''hourly_rate''] [''ann'', ''abc'', ''7'']
         ''hourly_rate'' = Some (Num 7)"
proof -
  note t = parse_csv_to_dicts_row_width [OF read_csv_sample, of integer_ops]
  have w: "length [''ann'', ''abc'', ''7''] = length [''name'', ''rate'', ''salary'']" by simp
  note r = t [THEN conjunct2, rule_format, OF w]
  have parsed: "parse_csv_to_dicts integer_ops sample_csv
       = Inr [row_dict integer_ops [''name'', ''hourly_rate'', ''hourly_rate''] [''ann'', ''abc'', ''7''],
              row_dict integer_ops [''name'', ''hourly_rate'', ''hourly_rate''] [''cy'', ''12'', ''x'']]"
    using t [THEN conjunct1] by (simp add: normalize_header_def)
  have keys: "dom (row_dict integer_ops [''name'', ''hourly_rate'', ''hourly_rate''] [''ann'', ''abc'', ''7''])
       = {''name'', ''hourly_rate''}"
    using r [THEN conjunct2, THEN conjunct1] by (simp add: normalize_header_def)
  have name: "row_dict integer_ops [''name'', ''hourly_rate'', ''hourly_rate''] [''ann'', ''abc'', ''7'']
         ''name'' = Some (Str ''ann'')"
    using r [THEN conjunct2, THEN conjunct2, rule_format, of 0]
    by (simp add: normalize_header_def field_value_def nth_Cons split: nat.splits)
  have nolater: "\<forall>j. 2 < j \<and> j < length [''name'', ''rate'', ''salary''] \<longrightarrow>
          normalize_header ([''name'', ''rate'', ''salary''] ! j)
            \<noteq> normalize_header ([''name'', ''rate'', ''salary''] ! 2)"
    by (auto simp: less_Suc_eq)
  have "row_dict integer_ops (map normalize_header [''name'', ''rate'', ''salary''])
          [''ann'', ''abc'', ''7''] (normalize_header ([''name'', ''rate'', ''salary''] ! 2))
        = Some (field_value integer_ops (normalize_header ([''name'', ''rate'', ''salary''] ! 2))
                  ([''ann'', ''abc'', ''7''] ! 2))"
    by (rule r [THEN conjunct2, THEN conjunct2, rule_format]) (use nolater in simp_all)
  then have rate: "row_dict integer_ops [''name'', ''hourly_rate'', ''hourly_rate''] [''ann'', ''abc'', ''7'']
         ''hourly_rate'' = Some (Num 7)"
    by (simp add: normalize_header_def field_value_def integer_ops_def digits_sample)
  show ?thesis using read_csv_sample parsed keys name rate by (simp only: simp_thms)
qed

text \<open>
  C4. In a row as wide as the header row, a value that \<open>float\<close> rejects, in a column
  whose normalized name is \<open>hours_worked\<close> or \<open>hourly_rate\<close>, is stored as the number
  \<open>0\<close>: that is the value \<open>field_value\<close> computes for the cell, and the dictionary holds
  it under the column's name once the loop has passed the column. The finished
  dictionary holds it too unless a later column of the same normalized name overwrites
  it. The parser does not fail, and the dictionary of the row is in its result.
\<close>

theorem numeric_field_default_zero:
  assumes table: "read_csv content = (headers, data)"
    and row: "row \<in> set data" "length row = length headers"
    and i: "i < length row"
    and numeric: "normalize_header (headers ! i) \<in> {''hours_worked'', ''hourly_rate''}"
    and fails: "num_of_str ops (row ! i) = None"
  shows "field_value ops (normalize_header (headers ! i)) (row ! i) = Num (num_zero ops)
         \<and> (\<exists>employee.
               fill_employee ops (map normalize_header headers) 0 (take (Suc i) row) Map.empty
                 = Inr employee
               \<and> employee (normalize_header (headers ! i)) = Some (Num (num_zero ops)))
         \<and> ((\<forall>j. i < j \<and> j < length headers \<longrightarrow>
                  normalize_header (headers ! j) \<noteq> normalize_header (headers ! i)) \<longrightarrow>
              row_dict ops (map normalize_header headers) row (normalize_header (headers ! i))
                = Some (Num (num_zero ops)))
         \<and> (\<exists>result. parse_csv_to_dicts ops content = Inr result
               \<and> row_dict ops (map normalize_header headers) row \<in> set result)"
proof -
  let ?nh = "map normalize_header headers"
  have ih: "i < length headers" using i row(2) by simp
  have nth: "?nh ! i = normalize_header (headers ! i)" using ih by simp
  have zero: "field_value ops (normalize_header (headers ! i)) (row ! i) = Num (num_zero ops)"
    using numeric fails by (auto simp: field_value_def)
  have prefix: "fill_employee ops ?nh 0 (take (Suc i) row) Map.empty
                  = Inr (fold (store_field ops) (zip (take (Suc i) ?nh) (take (Suc i) row)) Map.empty)"
  proof -
    have "fill_employee ops ?nh 0 (take (Suc i) row) Map.empty
            = Inr (fold (store_field ops) (zip ?nh (take (Suc i) row)) Map.empty)"
      using fill_employee_fold [of 0 "take (Suc i) row" ?nh ops Map.empty] ih i by simp
    then show ?thesis by (simp only: zip_take_right [of ?nh "Suc i" row])
  qed
  have stored: "fold (store_field ops) (zip (take (Suc i) ?nh) (take (Suc i) row)) Map.empty
                  (take (Suc i) ?nh ! i)
                = Some (field_value ops (take (Suc i) ?nh ! i) (take (Suc i) row ! i))"
    by (rule fold_store_last) (use ih i in simp_all)
  have after: "\<exists>employee.
               fill_employee ops ?nh 0 (take (Suc i) row) Map.empty = Inr employee
               \<and> employee (normalize_header (headers ! i)) = Some (Num (num_zero ops))"
    using prefix stored zero ih by simp
  have final: "row_dict ops ?nh row (normalize_header (headers ! i)) = Some (Num (num_zero ops))"
    if "\<forall>j. i < j \<and> j < length headers \<longrightarrow>
             normalize_header (headers ! j) \<noteq> normalize_header (headers ! i)"
  proof -
    have "row_dict ops ?nh row (?nh ! i) = Some (field_value ops (?nh ! i) (row ! i))"
    proof (rule row_dict_last)
      fix j assume "i < j" "j < length ?nh"
      with that ih show "?nh ! j \<noteq> ?nh ! i" by simp
    qed (use row(2) ih in simp_all)
    then show ?thesis using zero nth by simp
  qed
  have kept: "\<exists>result. parse_csv_to_dicts ops content = Inr result
               \<and> row_dict ops ?nh row \<in> set result"
    using parse_csv_to_dicts_map [OF table, of ops] row by simp
  show ?thesis
  proof (intro conjI impI)
    show "field_value ops (normalize_header (headers ! i)) (row ! i) = Num (num_zero ops)"
      by (rule zero)
    show "\<exists>employee.
               fill_employee ops ?nh 0 (take (Suc i) row) Map.empty = Inr employee
               \<and> employee (normalize_header (headers ! i)) = Some (Num (num_zero ops))"
      by (rule after)
    show "\<exists>result. parse_csv_to_dicts ops content = Inr result
               \<and> row_dict ops ?nh row \<in> set result"
      by (rule kept)
  next
    assume "\<forall>j. i < j \<and> j < length headers \<longrightarrow>
             normalize_header (headers ! j) \<noteq> normalize_header (headers ! i)"
    then show "row_dict ops ?nh row (normalize_header (headers ! i)) = Some (Num (num_zero ops))"
      by (rule final)
  qed
qed



theorem numeric_field_default_zero_witness:
  "read_csv sample_csv
     = ([''name'', ''rate'', ''salary''], [[''ann'', ''abc'', ''7''], [''bob''], [''cy'', ''12'', ''x'']])
   \<and> normalize_header ''salary'' = ''hourly_rate''
   \<and> num_of_str integer_ops ''x'' = None
   \<and> field_value integer_ops ''hourly_rate'' ''x'' = Num 0
   \<and> row_dict integer_ops [''name'', ''hourly_rate'', ''hourly_rate''] [''cy'', ''12'', ''x'']
         ''hourly_rate'' = Some (Num 0)
   \<and> (\<exists>result. parse_csv_to_dicts integer_ops sample_csv = Inr result
         \<and> row_dict integer_ops [''name'', ''hourly_rate'', ''hourly_rate''] [''cy'', ''12'', ''x'']
             \<in> set result)"
proof -
  have fails: "num_of_str integer_ops ([''cy'', ''12'', ''x''] ! 2) = None"
    by (simp add: integer_ops_def digits_sample)
  have numeric: "normalize_header ([''name'', ''rate'', ''salary''] ! 2)
                   \<in> {''hours_worked'', ''hourly_rate''}"
    by (simp add: normalize_header_def)
  have row: "[''cy'', ''12'', ''x'']
               \<in> set [[''ann'', ''abc'', ''7''], [''bob''], [''cy'', ''12'', ''x'']]"
    by simp
  have len: "length [''cy'', ''12'', ''x''] = length [''name'', ''rate'', ''salary'']"
    by simp
  have i: "2 < length [''cy'', ''12'', ''x'']" by simp
  have nolater: "\<forall>j. 2 < j \<and> j < length [''name'', ''rate'', ''salary''] \<longrightarrow>
          normalize_header ([''name'', ''rate'', ''salary''] ! j)
            \<noteq> normalize_header ([''name'', ''rate'', ''salary''] ! 2)"
    by (auto simp: less_Suc_eq)
  note t = numeric_field_default_zero [OF read_csv_sample row len i numeric fails]
  have zero: "field_value integer_ops ''hourly_rate'' ''x'' = Num 0"
    using t [THEN conjunct1] by (simp add: normalize_header_def integer_ops_def)
  have stored: "row_dict integer_ops [''name'', ''hourly_rate'', ''hourly_rate'']
                  [''cy'', ''12'', ''x''] ''hourly_rate'' = Some (Num 0)"
    using t [THEN conjunct2, THEN conjunct2, THEN conjunct1, THEN mp, OF nolater]
    by (simp add: normalize_header_def integer_ops_def)
  have kept: "\<exists>result. parse_csv_to_dicts integer_ops sample_csv = Inr result
         \<and> row_dict integer_ops [''name'', ''hourly_rate'', ''hourly_rate''] [''cy'', ''12'', ''x'']
             \<in> set result"
    using t [THEN conjunct2, THEN conjunct2, THEN conjunct2]
    by (simp add: normalize_header_def)
  have salary: "normalize_header ''salary'' = ''hourly_rate''"
    by (simp add: normalize_header_def)
  have failsx: "num_of_str integer_ops ''x'' = None" using fails by simp
  show ?thesis using read_csv_sample salary failsx zero stored kept by (simp only: simp_thms)
qed

text \<open>
  C10. When two columns \<open>i < j\<close> have the same normalized name and \<open>j\<close> is the last such
  column, a row as wide as the header row still gives exactly one dictionary; its entry
  for the shared name is the value of column \<open>j\<close>; the value of column \<open>i\<close> has no
  effect on the dictionary; and the dictionary has fewer keys than the file has columns.
\<close>

theorem colliding_headers_rightmost:
  assumes table: "read_csv content = (headers, data)"
    and row: "row \<in> set data" "length row = length headers"
    and ij: "i < j" "j < length headers"
    and same: "normalize_header (headers ! i) = normalize_header (headers ! j)"
    and last: "\<forall>k. j < k \<and> k < length headers \<longrightarrow>
                 normalize_header (headers ! k) \<noteq> normalize_header (headers ! j)"
  shows "parse_csv_to_dicts ops content
           = Inr (map (row_dict ops (map normalize_header headers))
                    (filter (\<lambda>row. length row = length headers) data))
         \<and> row_dict ops (map normalize_header headers) row
             \<in> set (map (row_dict ops (map normalize_header headers))
                      (filter (\<lambda>row. length row = length headers) data))
         \<and> row_dict ops (map normalize_header headers) row (normalize_header (headers ! j))
             = Some (field_value ops (normalize_header (headers ! j)) (row ! j))
         \<and> (\<forall>x. row_dict ops (map normalize_header headers) (row[i := x])
                  = row_dict ops (map normalize_header headers) row)
         \<and> card (dom (row_dict ops (map normalize_header headers) row)) < length headers"
proof -
  let ?nh = "map normalize_header headers"
  have i: "i < length headers" using ij by simp
  have len: "length row = length ?nh" using row(2) by simp
  have parsed: "parse_csv_to_dicts ops content
           = Inr (map (row_dict ops ?nh) (filter (\<lambda>row. length row = length headers) data))"
    using table by (rule parse_csv_to_dicts_map)
  have member: "row_dict ops ?nh row
             \<in> set (map (row_dict ops ?nh) (filter (\<lambda>row. length row = length headers) data))"
    using row by simp
  have "row_dict ops ?nh row (?nh ! j) = Some (field_value ops (?nh ! j) (row ! j))"
  proof (rule row_dict_last)
    fix k assume "j < k" "k < length ?nh"
    with last ij show "?nh ! k \<noteq> ?nh ! j" by simp
  qed (use len ij in simp_all)
  then have rightmost: "row_dict ops ?nh row (normalize_header (headers ! j))
             = Some (field_value ops (normalize_header (headers ! j)) (row ! j))"
    using ij by simp
  have eq: "?nh ! j = ?nh ! i" using same ij i by simp
  have discarded: "\<forall>x. row_dict ops ?nh (row[i := x]) = row_dict ops ?nh row"
  proof
    fix x
    show "row_dict ops ?nh (row[i := x]) = row_dict ops ?nh row"
      using len ij(1) _ eq by (rule row_dict_overwritten) (use ij in simp)
  qed
  have "\<not> distinct ?nh"
  proof
    assume "distinct ?nh"
    then have "(?nh ! j = ?nh ! i) = (j = i)"
      by (rule nth_eq_iff_index_eq) (use ij i in simp_all)
    with eq have "j = i" by blast
    with ij show False by simp
  qed
  then have "card (set ?nh) \<noteq> length ?nh" using card_distinct by blast
  moreover have "card (set ?nh) \<le> length ?nh" by (rule card_length)
  ultimately have "card (set ?nh) < length headers" by simp
  then have fewer: "card (dom (row_dict ops ?nh row)) < length headers"
    using len by (simp add: row_dict_dom)
  show ?thesis using parsed member rightmost discarded fewer by (simp only: simp_thms)
qed


theorem colliding_headers_rightmost_witness:
  "read_csv sample_csv
     = ([''name'', ''rate'', ''salary''], [[''ann'', ''abc'', ''7''], [''bob''], [''cy'', ''12'', ''x'']])
   \<and> normalize_header ''rate'' = normalize_header ''salary''
   \<and> parse_csv_to_dicts integer_ops sample_csv
       = Inr [row_dict integer_ops [''name'', ''hourly_rate'', ''hourly_rate''] [''ann'', ''abc'', ''7''],
              row_dict integer_ops [''name'', ''hourly_rate'', ''hourly_rate''] [''cy'', ''12'', ''x'']]
   \<and> row_dict integer_ops [''name'', ''hourly_rate'', ''hourly_rate''] [''ann'', ''abc'', ''7'']
         ''hourly_rate'' = Some (Num 7)
   \<and> row_dict integer_ops [''name'', ''hourly_rate'', ''hourly_rate''] [''ann'', ''999'', ''7'']
       = row_dict integer_ops [''name'', ''hourly_rate'', ''hourly_rate''] [''ann'', ''abc'', ''7'']
   \<and> card (dom (row_dict integer_ops [''name'', ''hourly_rate'', ''hourly_rate'']
                    [''ann'', ''abc'', ''7''])) < 3"
proof -
  have row: "[''ann'', ''abc'', ''7'']
               \<in> set [[''ann'', ''abc'', ''7''], [''bob''], [''cy'', ''12'', ''x'']]"
    by simp
  have len: "length [''ann'', ''abc'', ''7''] = length [''name'', ''rate'', ''salary'']"
    by simp
  have ij: "(1::nat) < 2" "2 < length [''name'', ''rate'', ''salary'']" by simp_all
  have same: "normalize_header ([''name'', ''rate'', ''salary''] ! 1)
                = normalize_header ([''name'', ''rate'', ''salary''] ! 2)"
    by (simp add: normalize_header_def)
  have nolater: "\<forall>k. 2 < k \<and> k < length [''name'', ''rate'', ''salary''] \<longrightarrow>
          normalize_header ([''name'', ''rate'', ''salary''] ! k)
            \<noteq> normalize_header ([''name'', ''rate'', ''salary''] ! 2)"
    by (auto simp: less_Suc_eq)
  note t = colliding_headers_rightmost
             [OF read_csv_sample row len ij same nolater, of integer_ops]
  have parsed: "parse_csv_to_dicts integer_ops sample_csv
       = Inr [row_dict integer_ops [''name'', ''hourly_rate'', ''hourly_rate''] [''ann'', ''abc'', ''7''],
              row_dict integer_ops [''name'', ''hourly_rate'', ''hourly_rate''] [''cy'', ''12'', ''x'']]"
    using t [THEN conjunct1] by (simp add: normalize_header_def)
  have rightmost: "row_dict integer_ops [''name'', ''hourly_rate'', ''hourly_rate'']
                     [''ann'', ''abc'', ''7''] ''hourly_rate'' = Some (Num 7)"
    using t [THEN conjunct2, THEN conjunct2, THEN conjunct1]
    by (simp add: normalize_header_def field_value_def integer_ops_def digits_sample)
  have discarded: "row_dict integer_ops [''name'', ''hourly_rate'', ''hourly_rate'']
                     [''ann'', ''999'', ''7'']
       = row_dict integer_ops [''name'', ''hourly_rate'', ''hourly_rate''] [''ann'', ''abc'', ''7'']"
    using t [THEN conjunct2, THEN conjunct2, THEN conjunct2, THEN conjunct1, THEN spec,
             of "''999''"]
    by (simp add: normalize_header_def)
  have fewer: "card (dom (row_dict integer_ops [''name'', ''hourly_rate'', ''hourly_rate'']
                    [''ann'', ''abc'', ''7''])) < 3"
    using t [THEN conjunct2, THEN conjunct2, THEN conjunct2, THEN conjunct2]
    by (simp add: normalize_header_def)
  have names: "normalize_header ''rate'' = normalize_header ''salary''"
    by (simp add: normalize_header_def)
  show ?thesis using read_csv_sample names parsed rightmost discarded fewer
    by (simp only: simp_thms)
qed

section \<open>Properties of the report\<close>

text \<open>
  C5. \<open>generate_payout_report\<close> on the empty list of records returns the one line
  \<open>No data available for report.\<close> and raises nothing.
\<close>

theorem generate_payout_report_empty:
  "generate_payout_report ops [] = Inr ''No data available for report.''"
  by (simp add: generate_payout_report_def)

lemma str_of_int_scenario:
  "str_of_int 160 = ''160''" "str_of_int 50 = ''50''" "str_of_int 8000 = ''8000''"
  "str_of_int 150 = ''150''" "str_of_int 60 = ''60''" "str_of_int 9000 = ''9000''"
  "str_of_int 170 = ''170''" "str_of_int 40 = ''40''" "str_of_int 6800 = ''6800''"
  "str_of_int 310 = ''310''" "str_of_int 17000 = ''17000''"
  "str_of_int 480 = ''480''" "str_of_int 23800 = ''23800''"
  by (simp_all add: str_of_int_def str_of_nat.simps digit_char_def)

lemma scenario_records_typed: "list_all text_fields_ok scenario_records \<and> list_all numeric_fields_ok scenario_records"
  by (simp add: scenario_records_def text_fields_ok_def numeric_fields_ok_def is_str_def
        is_num_def)

lemma sorted_departments_scenario:
  "sorted_departments scenario_records =
     [(''HR'', [scenario_records ! 2]), (''IT'', [scenario_records ! 0, scenario_records ! 1])]"
  by (simp add: sorted_departments_def group_by_department_def add_employee_def department_def
       get_str_def scenario_records_def Let_def)

lemma payout_loop_scenario:
  "payout_loop integer_ops scenario_records = (take 8 scenario_lines, 480, 23800)"
  unfolding payout_loop_def sorted_departments_scenario
  by (simp add: department_step_def employee_step_def employee_line_def subtotal_line_def
      header_line_def payout_of_def scenario_lines_def
      hours_of_def rate_of_def get_num_def get_str_def scenario_records_def
      integer_ops_def ljust_def rjust_def str_of_int_scenario Let_def eval_nat_numeral)

lemma generate_payout_report_scenario:
  "generate_payout_report integer_ops scenario_records = Inr (join [CHR 0x0A] scenario_lines)"
  unfolding generate_payout_report_def payout_loop_scenario
  by (simp add: scenario_records_def text_fields_ok_def numeric_fields_ok_def is_str_def
       is_num_def total_hours_line_def total_payout_line_def integer_ops_def
       str_of_int_scenario scenario_lines_def)

text \<open>
  C9. The claim: for the three records of the scenario the report contains \<open>$8000\<close>,
  \<open>$9000\<close> and \<open>$6800\<close>, renders \<open>HR\<close> before \<open>IT\<close> and contains \<open>Total hours: 480\<close> and
  \<open>Total payout: $23800\<close>. The report is the text below: the department \<open>HR\<close> comes
  first and the two total lines are there, but each payout is padded to nine columns
  after the dollar sign, so none of \<open>$8000\<close>, \<open>$9000\<close> and \<open>$6800\<close> occurs in it.
\<close>

theorem scenario_report_payouts_padded:
  "generate_payout_report integer_ops scenario_records = Inr (join [CHR 0x0A] scenario_lines)
   \<and> \<not> str_contains ''$8000'' (join [CHR 0x0A] scenario_lines)
   \<and> \<not> str_contains ''$9000'' (join [CHR 0x0A] scenario_lines)
   \<and> \<not> str_contains ''$6800'' (join [CHR 0x0A] scenario_lines)
   \<and> str_contains ''$     8000'' (join [CHR 0x0A] scenario_lines)
   \<and> str_contains ''$     9000'' (join [CHR 0x0A] scenario_lines)
   \<and> str_contains ''$     6800'' (join [CHR 0x0A] scenario_lines)
   \<and> str_contains ''Total hours: 480'' (join [CHR 0x0A] scenario_lines)
   \<and> str_contains ''Total payout: $23800'' (join [CHR 0x0A] scenario_lines)"
  by (simp add: generate_payout_report_scenario) (simp add: scenario_lines_def)

subsection \<open>The loops of \<open>generate_payout_report\<close>\<close>

lemma fold_employee_step:
  "fold (employee_step ops) employees (report_lines, h, p)
     = (report_lines @ map (employee_line ops) employees,
        fold (\<lambda>employee total. num_add ops total (hours_of ops employee)) employees h,
        fold (\<lambda>employee total. num_add ops total (payout_of ops employee)) employees p)"
  by (induction employees arbitrary: report_lines h p) (simp_all add: employee_step_def)

lemma department_step_totals:
  "department_step ops (dept, employees) (report_lines, gh, gp)
     = (report_lines @ section_lines ops (dept, employees),
        num_add ops gh (dept_total_hours ops employees),
        num_add ops gp (dept_total_payout ops employees))"
  by (simp add: department_step_def fold_employee_step section_lines_def
        dept_total_hours_def dept_total_payout_def)

lemma fold_department_step:
  "fold (department_step ops) items (report_lines, gh, gp)
     = (report_lines @ concat (map (section_lines ops) items),
        fold (\<lambda>item total. num_add ops total (dept_total_hours ops (snd item))) items gh,
        fold (\<lambda>item total. num_add ops total (dept_total_payout ops (snd item))) items gp)"
proof (induction items arbitrary: report_lines gh gp)
  case Nil
  then show ?case by simp
next
  case (Cons item items)
  obtain dept employees where item: "item = (dept, employees)" by (cases item)
  show ?case by (simp add: item department_step_totals Cons.IH)
qed

lemma num_sum_map:
  "num_sum ops (map f xs) = fold (\<lambda>x total. num_add ops total (f x)) xs (num_zero ops)"
  by (simp add: num_sum_def fold_map comp_def)

lemma payout_loop_closed:
  "payout_loop ops es
     = (header_line # concat (map (section_lines ops) (sorted_departments es)),
        num_sum ops (map (\<lambda>item. dept_total_hours ops (snd item)) (sorted_departments es)),
        num_sum ops (map (\<lambda>item. dept_total_payout ops (snd item)) (sorted_departments es)))"
  by (simp add: payout_loop_def fold_department_step num_sum_map)


lemma map_fst_add_employee:
  "map fst (add_employee e ds)
     = (if department e \<in> set (map fst ds) then map fst ds else map fst ds @ [department e])"
  by (auto simp: add_employee_def Let_def split_def)

lemma set_add_employee:
  "set (add_employee e ds)
     = (\<lambda>(d, l). if d = department e then (d, l @ [e]) else (d, l))
         ` (set ds \<union> (if department e \<in> set (map fst ds) then {} else {(department e, [])}))"
  by (auto simp: add_employee_def Let_def)

lemma group_by_department_snoc:
  "group_by_department (es @ [e]) = add_employee e (group_by_department es)"
  by (simp add: group_by_department_def)

lemma group_by_department_keys:
  "distinct (map fst (group_by_department es))
   \<and> set (map fst (group_by_department es)) = department ` set es"
proof (induction es rule: rev_induct)
  case Nil
  then show ?case by (simp add: group_by_department_def)
next
  case (snoc e es)
  then show ?case
    by (auto simp: group_by_department_snoc map_fst_add_employee)
qed

lemma group_by_department_members:
  "(d, l) \<in> set (group_by_department es) \<Longrightarrow> l = filter (\<lambda>e. department e = d) es"
proof (induction es arbitrary: d l rule: rev_induct)
  case Nil
  then show ?case by (simp add: group_by_department_def)
next
  case (snoc e es)
  let ?ds = "group_by_department es"
  from snoc.prems obtain d0 l0 where
    mem: "(d0, l0) \<in> set ?ds \<union> (if department e \<in> set (map fst ?ds) then {} else {(department e, [])})"
    and dl: "(d, l) = (if d0 = department e then (d0, l0 @ [e]) else (d0, l0))"
    unfolding group_by_department_snoc set_add_employee by auto
  have d: "d = d0" using dl by (simp split: if_splits)
  have l0: "l0 = filter (\<lambda>e. department e = d0) es"
  proof (cases "(d0, l0) \<in> set ?ds")
    case True
    then show ?thesis by (rule snoc.IH)
  next
    case False
    with mem have new: "department e \<notin> set (map fst ?ds)" "d0 = department e" "l0 = []"
      by (auto split: if_splits)
    from new(1) have "department e \<notin> department ` set es"
      using group_by_department_keys [of es] by simp
    then have "\<forall>x\<in>set es. department x \<noteq> department e" by (metis imageI)
    then have "filter (\<lambda>e'. department e' = department e) es = []"
      by (simp add: filter_empty_conv)
    with new show ?thesis by simp
  qed
  show ?case using dl d l0 by (simp split: if_splits)
qed

lemma pairs_by_key:
  "(\<And>d l. (d, l) \<in> set ys \<Longrightarrow> l = F d) \<Longrightarrow> ys = map (\<lambda>d. (d, F d)) (map fst ys)"
proof (induction ys)
  case Nil
  then show ?case by simp
next
  case (Cons y ys)
  obtain d l where y: "y = (d, l)" by (cases y)
  have "l = F d" using Cons.prems [of d l] y by simp
  moreover have "ys = map (\<lambda>d. (d, F d)) (map fst ys)"
    by (rule Cons.IH) (use Cons.prems in simp)
  ultimately show ?case using y by simp
qed

lemma sorted_departments_keys:
  "map fst (sorted_departments es) = sorted_list_of_set (department ` set es)"
proof (rule sorted_distinct_set_unique)
  let ?ds = "group_by_department es"
  show "sorted (map fst (sorted_departments es))"
    by (simp add: sorted_departments_def)
  have "distinct (map fst ?ds)" using group_by_department_keys [of es] by simp
  then have "distinct ?ds" "inj_on fst (set ?ds)" by (simp_all add: distinct_map)
  then show "distinct (map fst (sorted_departments es))"
    by (simp add: sorted_departments_def distinct_map)
  show "set (map fst (sorted_departments es)) = set (sorted_list_of_set (department ` set es))"
    using group_by_department_keys [of es] by (simp add: sorted_departments_def)
qed simp_all

lemma sorted_departments_closed:
  "sorted_departments es
     = map (\<lambda>d. (d, filter (\<lambda>e. department e = d) es))
         (sorted_list_of_set (department ` set es))"
proof -
  have "sorted_departments es
          = map (\<lambda>d. (d, filter (\<lambda>e. department e = d) es)) (map fst (sorted_departments es))"
  proof (rule pairs_by_key)
    fix d l assume "(d, l) \<in> set (sorted_departments es)"
    then have "(d, l) \<in> set (group_by_department es)" by (simp add: sorted_departments_def)
    then show "l = filter (\<lambda>e. department e = d) es" by (rule group_by_department_members)
  qed
  then show ?thesis by (simp only: sorted_departments_keys)
qed


lemma generate_payout_report_closed:
  assumes "es \<noteq> []" "list_all text_fields_ok es" "list_all numeric_fields_ok es"
  shows "generate_payout_report ops es
           = Inr (join [CHR 0x0A]
                   (header_line
                      # concat (map (\<lambda>d. section_lines ops (d, filter (\<lambda>e. department e = d) es))
                                  (sorted_list_of_set (department ` set es)))
                      @ [total_hours_line ops (grand_total_hours ops es),
                         total_payout_line ops (grand_total_payout ops es)]))"
proof -
  have lines: "fst (payout_loop ops es)
                 = header_line
                     # concat (map (\<lambda>d. section_lines ops (d, filter (\<lambda>e. department e = d) es))
                                 (sorted_list_of_set (department ` set es)))"
    by (simp add: payout_loop_closed) (simp add: sorted_departments_closed comp_def)
  obtain ls gh gp where loop: "payout_loop ops es = (ls, gh, gp)" by (cases "payout_loop ops es")
  have "generate_payout_report ops es
          = Inr (join [CHR 0x0A] (ls @ [total_hours_line ops gh, total_payout_line ops gp]))"
    using assms by (simp add: generate_payout_report_def loop)
  moreover have "ls = fst (payout_loop ops es)" "gh = grand_total_hours ops es"
    "gp = grand_total_payout ops es"
    by (simp_all add: loop grand_total_hours_def grand_total_payout_def)
  ultimately show ?thesis by (simp add: lines)
qed

text \<open>
  C6. For a non-empty list of records (with fields of the types of an employee record) the
  report is the header line, then one section for each department, then the two total
  lines. The departments are the keys \<open>department\<close> of the records, \<open>Unknown\<close> for a
  record without one, each once, in ascending order of the strings: they depend on the
  set of the records only, not on their order. The section of a department lists the
  records of that department in the order in which they arrive.
\<close>

theorem report_sections_sorted:
  assumes "es \<noteq> []" "list_all text_fields_ok es" "list_all numeric_fields_ok es"
  shows "generate_payout_report (ops :: 'n num_ops) es
           = Inr (join [CHR 0x0A]
                   (header_line
                      # concat (map (\<lambda>d. section_lines ops (d, filter (\<lambda>e. department e = d) es))
                                  (map fst (sorted_departments es)))
                      @ [total_hours_line ops (grand_total_hours ops es),
                         total_payout_line ops (grand_total_payout ops es)]))
         \<and> sorted (map fst (sorted_departments es))
         \<and> distinct (map fst (sorted_departments es))
         \<and> set (map fst (sorted_departments es)) = department ` set es
         \<and> map fst (sorted_departments es) = sorted_list_of_set (department ` set es)
         \<and> (\<forall>es'. set es' = set es \<longrightarrow>
                map fst (sorted_departments es') = map fst (sorted_departments es))
         \<and> (\<forall>e :: 'n employee. e ''department'' = None \<longrightarrow> department e = ''Unknown'')"
proof (intro conjI allI impI)
  show "generate_payout_report ops es
           = Inr (join [CHR 0x0A]
                   (header_line
                      # concat (map (\<lambda>d. section_lines ops (d, filter (\<lambda>e. department e = d) es))
                                  (map fst (sorted_departments es)))
                      @ [total_hours_line ops (grand_total_hours ops es),
                         total_payout_line ops (grand_total_payout ops es)]))"
    using generate_payout_report_closed [OF assms, of ops]
    by (simp only: sorted_departments_keys)
  show "sorted (map fst (sorted_departments es))"
    by (simp add: sorted_departments_keys)
  show "distinct (map fst (sorted_departments es))"
    by (simp add: sorted_departments_keys)
  show "set (map fst (sorted_departments es)) = department ` set es"
    by (simp add: sorted_departments_keys)
  show "map fst (sorted_departments es) = sorted_list_of_set (department ` set es)"
    by (rule sorted_departments_keys)
next
  fix es' :: "'n employee list"
  assume "set es' = set es"
  then show "map fst (sorted_departments es') = map fst (sorted_departments es)"
    by (simp add: sorted_departments_keys)
next
  fix e :: "'n employee"
  assume "e ''department'' = None"
  then show "department e = ''Unknown''" by (simp add: department_def get_str_def)
qed

theorem report_sections_sorted_witness:
  "scenario_records \<noteq> [] \<and> list_all text_fields_ok scenario_records
   \<and> list_all numeric_fields_ok scenario_records
   \<and> map fst (sorted_departments scenario_records) = [''HR'', ''IT'']
   \<and> sorted_list_of_set (department ` set scenario_records) = [''HR'', ''IT'']
   \<and> generate_payout_report integer_ops scenario_records
       = Inr (join [CHR 0x0A]
               (header_line
                  # concat (map (\<lambda>d. section_lines integer_ops
                                        (d, filter (\<lambda>e. department e = d) scenario_records))
                              [''HR'', ''IT''])
                  @ [total_hours_line integer_ops (grand_total_hours integer_ops scenario_records),
                     total_payout_line integer_ops
                       (grand_total_payout integer_ops scenario_records)]))"
proof -
  have ne: "scenario_records \<noteq> []" by (simp add: scenario_records_def)
  have typed: "list_all text_fields_ok scenario_records"
    "list_all numeric_fields_ok scenario_records"
    using scenario_records_typed by simp_all
  note t = report_sections_sorted [OF ne typed, of integer_ops]
  have keys: "map fst (sorted_departments scenario_records) = [''HR'', ''IT'']"
    by (simp add: sorted_departments_scenario)
  have keys': "sorted_list_of_set (department ` set scenario_records) = [''HR'', ''IT'']"
    using t [THEN conjunct2, THEN conjunct2, THEN conjunct2, THEN conjunct2, THEN conjunct1]
    by (simp only: keys)
  have report: "generate_payout_report integer_ops scenario_records
       = Inr (join [CHR 0x0A]
               (header_line
                  # concat (map (\<lambda>d. section_lines integer_ops
                                        (d, filter (\<lambda>e. department e = d) scenario_records))
                              [''HR'', ''IT''])
                  @ [total_hours_line integer_ops (grand_total_hours integer_ops scenario_records),
                     total_payout_line integer_ops
                       (grand_total_payout integer_ops scenario_records)]))"
    using t [THEN conjunct1] by (simp only: keys)
  show ?thesis using ne typed keys keys' report by (simp only: simp_thms)
qed


subsection \<open>Sums\<close>












subsection \<open>Rounding\<close>





section \<open>Properties of the registry\<close>

text \<open>
  C8. The registry holds the one name \<open>payout\<close>, for which \<open>get_report_generator\<close> returns
  \<open>generate_payout_report\<close>. For any other name it fails with the error whose message is
  \<open>Unknown report type: \<close> followed by the name (the \<open>ValueError\<close> of the code), and so
  does the call in \<open>main\<close>, whatever the records: no report is produced. On records whose
  fields have the types of an employee record this is the only error of the report engine.
\<close>

theorem get_report_generator_unknown:
  "map fst (report_generators :: (string \<times> ('n num_ops \<Rightarrow> 'n employee list \<Rightarrow> error + string)) list)
     = [''payout'']
   \<and> get_report_generator ''payout''
       = (Inr generate_payout_report :: error + ('n num_ops \<Rightarrow> 'n employee list \<Rightarrow> error + string))
   \<and> (report_type \<noteq> ''payout'' \<longrightarrow>
        (get_report_generator report_type
           :: error + ('n num_ops \<Rightarrow> 'n employee list \<Rightarrow> error + string))
          = Inl (ValueError (''Unknown report type: '' @ report_type))
        \<and> main_report (ops :: 'n num_ops) report_type all_employees
          = Inl (ValueError (''Unknown report type: '' @ report_type)))
   \<and> (list_all text_fields_ok all_employees \<and> list_all numeric_fields_ok all_employees \<longrightarrow>
        (\<forall>e. main_report ops report_type all_employees = Inl e \<longrightarrow>
               report_type \<noteq> ''payout''
               \<and> e = ValueError (''Unknown report type: '' @ report_type)))"
  by (auto simp: report_generators_def get_report_generator_def main_report_def
        generate_payout_report_def split: prod.splits)

theorem get_report_generator_unknown_witness:
  "''bogus'' \<noteq> ''payout''
   \<and> (get_report_generator ''bogus''
         :: error + (int num_ops \<Rightarrow> int employee list \<Rightarrow> error + string))
       = Inl (ValueError ''Unknown report type: bogus'')
   \<and> main_report integer_ops ''bogus'' scenario_records
       = Inl (ValueError ''Unknown report type: bogus'')
   \<and> list_all text_fields_ok scenario_records \<and> list_all numeric_fields_ok scenario_records"
proof -
  have ne: "''bogus'' \<noteq> ''payout''" by simp
  from get_report_generator_unknown
          [where report_type = "''bogus''" and ops = integer_ops
             and all_employees = scenario_records and 'n = int]
  have "(get_report_generator ''bogus''
         :: error + (int num_ops \<Rightarrow> int employee list \<Rightarrow> error + string))
       = Inl (ValueError (''Unknown report type: '' @ ''bogus''))
        \<and> main_report integer_ops ''bogus'' scenario_records
       = Inl (ValueError (''Unknown report type: '' @ ''bogus''))"
    using ne by blast
  then show ?thesis using scenario_records_typed ne by simp
qed

end
